theory Spec2Isabelle
  imports Complex_Main "HOL-Library.Word" "HOL-Library.Signed_Division"
begin

section \<open>Data model of peer\_stats (main.go)\<close>

text \<open>
  Go's \<open>uint32\<close> is a 32-bit word: subtraction wraps around, comparison is unsigned.
  Go's \<open>int\<close> is taken at its width on 64-bit targets, so the conversion
  \<open>int(x)\<close> of a \<open>uint32\<close> keeps the unsigned value (\<open>uint\<close>); counters and
  lengths of type \<open>int\<close> are far below \<open>2 ^ 63\<close> for any slice that fits in memory and
  are modelled as unbounded \<open>int\<close>.
\<close>

type_synonym uint32 = "32 word"

text \<open>
  Modelled from the spec: the declarations of \<open>CAddrInfo\<close> and \<open>PeersDB\<close> are not part
  of main.go. main.go reads \<open>table[i].Address.Time\<close> (a \<open>uint32\<close>),
  \<open>table[i].Address.PeerAddress.String()\<close> (the address with its port, as text),
  the counts \<open>NNew\<close> and \<open>NTried\<close> (compared with a \<open>uint32\<close> loop index) and the two
  slices \<open>NewAddrInfo\<close> and \<open>TriedAddrInfo\<close>. The records below have exactly these
  fields; \<open>PeerAddress\<close> holds the text that \<open>String()\<close> returns.
\<close>

record CAddress =
  PeerAddress :: string
  Time :: uint32

record CAddrInfo =
  Address :: CAddress

record PeersDB =
  NNew :: uint32
  NTried :: uint32
  NewAddrInfo :: "CAddrInfo list"
  TriedAddrInfo :: "CAddrInfo list"

record AgeBuckets =
  LessThanOne :: int
  OneToFive :: int
  FiveToTen :: int
  TenToThirty :: int
  GreaterThanThirty :: int

text \<open>
  \<open>float64\<close> values as far as main.go produces them: a quotient of two lengths, and
  that quotient times 100. \<open>Finite q\<close> stands for the \<open>float64\<close> nearest to the exact
  value \<open>q\<close>; a zero divisor gives the IEEE 754 special values.
\<close>

datatype float64 = NaN | PosInf | Finite real

record Result =
  NumberOfReachableIPs :: int
  TotalIPs :: int
  Percentage :: float64
  OldestIPAge :: uint32
  Age :: AgeBuckets

text \<open>Run-time panics of the Go code.\<close>

datatype error = IndexOutOfRange | SliceBoundsOutOfRange

definition CreateResult :: Result where
  "CreateResult =
     \<lparr>NumberOfReachableIPs = 0, TotalIPs = 0, Percentage = Finite 0, OldestIPAge = 0,
      Age = \<lparr>LessThanOne = 0, OneToFive = 0, FiveToTen = 0, TenToThirty = 0,
             GreaterThanThirty = 0\<rparr>\<rparr>"

section \<open>Age buckets\<close>

definition ONE_DAY :: int where "ONE_DAY = 24 * 60 * 60"
definition FIVE_DAYS :: int where "FIVE_DAYS = 5 * ONE_DAY"
definition TEN_DAYS :: int where "TEN_DAYS = 2 * FIVE_DAYS"
definition THIRTY_DAYS :: int where "THIRTY_DAYS = 3 * TEN_DAYS"

text \<open>
  \<open>ipAge := int(approxAge - ipTimestamp)\<close>: the subtraction is on \<open>uint32\<close> and wraps;
  the conversion to \<open>int\<close> comes after it.
\<close>

definition AddToAgeBucket :: "AgeBuckets \<Rightarrow> uint32 \<Rightarrow> uint32 \<Rightarrow> AgeBuckets" where
  "AddToAgeBucket ageBucket ipTimestamp approxAge =
     (let ipAge = uint (approxAge - ipTimestamp) in
      if ipAge \<le> ONE_DAY then ageBucket\<lparr>LessThanOne := LessThanOne ageBucket + 1\<rparr>
      else if ipAge < FIVE_DAYS then ageBucket\<lparr>OneToFive := OneToFive ageBucket + 1\<rparr>
      else if ipAge < TEN_DAYS then ageBucket\<lparr>FiveToTen := FiveToTen ageBucket + 1\<rparr>
      else if ipAge < THIRTY_DAYS then ageBucket\<lparr>TenToThirty := TenToThirty ageBucket + 1\<rparr>
      else ageBucket\<lparr>GreaterThanThirty := GreaterThanThirty ageBucket + 1\<rparr>)"

text \<open>The sum of the five counters, and how much each counter grew from one value to another.\<close>

definition bucket_sum :: "AgeBuckets \<Rightarrow> int" where
  "bucket_sum b =
     LessThanOne b + OneToFive b + FiveToTen b + TenToThirty b + GreaterThanThirty b"

definition bucket_delta :: "AgeBuckets \<Rightarrow> AgeBuckets \<Rightarrow> int list" where
  "bucket_delta b b' =
     [LessThanOne b' - LessThanOne b, OneToFive b' - OneToFive b,
      FiveToTen b' - FiveToTen b, TenToThirty b' - TenToThirty b,
      GreaterThanThirty b' - GreaterThanThirty b]"

section \<open>Oldest record\<close>

text \<open>The loop of \<open>OldestIP\<close> visits \<open>table[0]\<close> to \<open>table[len(table)-1]\<close> in order.\<close>

fun OldestIP_loop :: "uint32 \<Rightarrow> CAddrInfo list \<Rightarrow> uint32" where
  "OldestIP_loop oldestIP [] = oldestIP"
| "OldestIP_loop oldestIP (r # table) =
     OldestIP_loop (if oldestIP > Time (Address r) then Time (Address r) else oldestIP) table"

definition OldestIP :: "CAddrInfo list \<Rightarrow> uint32" where
  "OldestIP table = OldestIP_loop 2000000000 table"

text \<open>
  \<open>daysOldestIP\<close> of \<open>WriteOutput\<close>, before \<open>strconv.Itoa\<close>:
  \<open>(int(approxAge) - int(result.OldestIPAge)) / ONE_DAY\<close>, Go's division truncating
  towards zero.
\<close>

definition daysOldestIP :: "uint32 \<Rightarrow> uint32 \<Rightarrow> int" where
  "daysOldestIP approxAge oldestIPAge = (uint approxAge - uint oldestIPAge) sdiv ONE_DAY"

section \<open>Age estimate\<close>

text \<open>
  One loop of \<open>ApproxAge\<close>: \<open>for i = 0; i < n; i++\<close> over \<open>table[i]\<close>, where \<open>n\<close> is the
  count declared in the database, not \<open>len(table)\<close>; an index beyond the slice panics.
\<close>

function ApproxAge_loop :: "CAddrInfo list \<Rightarrow> nat \<Rightarrow> nat \<Rightarrow> uint32 \<Rightarrow> error + uint32" where
  "ApproxAge_loop table n i approxAge =
     (if i < n then
        (if i < length table then
           ApproxAge_loop table n (Suc i)
             (if approxAge < Time (Address (table ! i)) then Time (Address (table ! i))
              else approxAge)
         else Inl IndexOutOfRange)
      else Inr approxAge)"
  by pat_completeness auto
termination
  by (relation "measure (\<lambda>(table, n, i, approxAge). n - i)") auto

declare ApproxAge_loop.simps [simp del]

definition ApproxAge :: "PeersDB \<Rightarrow> error + uint32" where
  "ApproxAge peersDb =
     (case ApproxAge_loop (NewAddrInfo peersDb) (unat (NNew peersDb)) 0 0 of
        Inl e \<Rightarrow> Inl e
      | Inr approxAge \<Rightarrow>
          ApproxAge_loop (TriedAddrInfo peersDb) (unat (NTried peersDb)) 0 approxAge)"

section \<open>Snapshot lookup\<close>

text \<open>
  \<open>strconv.Atoi\<close> of the Go standard library, with its error result dropped as
  \<open>ClosestBitnodeTS\<close> drops it: an optional sign and decimal digits give the number,
  clamped to the range of a 64-bit \<open>int\<close>; any other text gives 0.
\<close>

definition is_digit :: "char \<Rightarrow> bool" where
  "is_digit c = (48 \<le> (of_char c :: nat) \<and> (of_char c :: nat) \<le> 57)"

definition digits_value :: "string \<Rightarrow> int" where
  "digits_value s = foldl (\<lambda>n c. n * 10 + (int (of_char c) - 48)) 0 s"

definition Atoi :: "string \<Rightarrow> int" where
  "Atoi s =
     (let neg = (s \<noteq> [] \<and> hd s = CHR ''-'');
          ds = (if s \<noteq> [] \<and> (hd s = CHR ''-'' \<or> hd s = CHR ''+'') then tl s else s)
      in if ds = [] \<or> \<not> list_all is_digit ds then 0
         else max (- (2 ^ 63)) (min (2 ^ 63 - 1)
                (if neg then - digits_value ds else digits_value ds)))"

text \<open>
  \<open>BinSearch\<close> recurses on a window that need not shrink for every pair of indices
  (with \<open>high < low\<close> it can call itself with the same arguments), so a run that does
  not return is the value \<open>None\<close>. \<open>Some (Inl IndexOutOfRange)\<close> is the panic of an
  index expression outside the slice. \<open>low\<close> and \<open>high\<close> start at \<open>0\<close> and
  \<open>len(tsArray)\<close> and stay non-negative.
\<close>

partial_function (option) BinSearch ::
    "nat \<Rightarrow> nat \<Rightarrow> uint32 \<Rightarrow> uint32 list \<Rightarrow> (error + uint32) option" where
  "BinSearch low high elem tsArray =
     (if (high + low) div 2 \<ge> length tsArray then Some (Inl IndexOutOfRange)
      else if tsArray ! ((high + low) div 2) = elem then Some (Inr elem)
      else if (high + low) div 2 = low then
        (if high \<ge> length tsArray then Some (Inl IndexOutOfRange)
         else if elem - tsArray ! low < tsArray ! high - elem then Some (Inr (tsArray ! low))
         else Some (Inr (tsArray ! high)))
      else if elem < tsArray ! ((high + low) div 2) then
        BinSearch low ((high + low) div 2) elem tsArray
      else BinSearch ((high + low) div 2) high elem tsArray)"

declare BinSearch.simps [code]

text \<open>
  \<open>ClosestBitnodeTS\<close> on the lines of the timestamp file, as the scanner yields them
  (no lines when the file cannot be opened).
\<close>

definition load_timestamps :: "string list \<Rightarrow> uint32 list" where
  "load_timestamps tsLines = map (\<lambda>l. word_of_int (Atoi l)) tsLines"

definition ClosestBitnodeTS :: "string list \<Rightarrow> uint32 \<Rightarrow> (error + uint32) option" where
  "ClosestBitnodeTS tsLines approxAge =
     (let tsArray = load_timestamps tsLines
      in BinSearch 0 (length tsArray) approxAge tsArray)"

section \<open>Reachability and statistics\<close>

text \<open>\<open>ip[:len(ip)-5]\<close>, the slice expression that clips off the port number.\<close>

definition clip_port :: "string \<Rightarrow> error + string" where
  "clip_port ip =
     (if length ip < 5 then Inl SliceBoundsOutOfRange else Inr (take (length ip - 5) ip))"

text \<open>
  The first two loops of \<open>ComputeStats\<close>, one table each: the map of seen addresses
  and the age buckets after the records so far.
\<close>

fun table_loop ::
    "(string \<rightharpoonup> bool) \<Rightarrow> AgeBuckets \<Rightarrow> uint32 \<Rightarrow> CAddrInfo list
       \<Rightarrow> error + ((string \<rightharpoonup> bool) \<times> AgeBuckets)" where
  "table_loop seenHashMap age approxAge [] = Inr (seenHashMap, age)"
| "table_loop seenHashMap age approxAge (r # table) =
     (case clip_port (PeerAddress (Address r)) of
        Inl e \<Rightarrow> Inl e
      | Inr bare \<Rightarrow>
          table_loop (seenHashMap(bare \<mapsto> True))
            (AddToAgeBucket age (Time (Address r)) approxAge) approxAge table)"

text \<open>
  \<open>float64(a) / float64(b)\<close> for two lengths, and \<open>x * 100\<close> of \<open>WriteOutput\<close>.
\<close>

definition float64_div :: "nat \<Rightarrow> nat \<Rightarrow> float64" where
  "float64_div a b =
     (if b = 0 then (if a = 0 then NaN else PosInf) else Finite (real a / real b))"

fun times100 :: "float64 \<Rightarrow> float64" where
  "times100 NaN = NaN"
| "times100 PosInf = PosInf"
| "times100 (Finite x) = Finite (x * 100)"

text \<open>
  \<open>ComputeStats\<close> on the lines of the reachability file (no lines when the file cannot
  be opened): a line is appended to a table's reachable list when the table's map has
  it as a key.
\<close>

definition ComputeStats ::
    "string list \<Rightarrow> uint32 \<Rightarrow> CAddrInfo list \<Rightarrow> CAddrInfo list \<Rightarrow> error + (Result \<times> Result)" where
  "ComputeStats bitnodeLines approxAge newTableIPs triedTableIPs =
     (case table_loop Map.empty (Age CreateResult) approxAge newTableIPs of
        Inl e \<Rightarrow> Inl e
      | Inr (newSeenHashMap, newAge) \<Rightarrow>
     (case table_loop Map.empty (Age CreateResult) approxAge triedTableIPs of
        Inl e \<Rightarrow> Inl e
      | Inr (triedSeenHashMap, triedAge) \<Rightarrow>
          (let newReachableIPs = filter (\<lambda>ip. newSeenHashMap ip \<noteq> None) bitnodeLines;
               triedReachableIPs = filter (\<lambda>ip. triedSeenHashMap ip \<noteq> None) bitnodeLines
           in Inr
             (\<lparr>NumberOfReachableIPs = int (length newReachableIPs),
               TotalIPs = int (length newTableIPs),
               Percentage = float64_div (length newReachableIPs) (length newTableIPs),
               OldestIPAge = OldestIP newTableIPs,
               Age = newAge\<rparr>,
              \<lparr>NumberOfReachableIPs = int (length triedReachableIPs),
               TotalIPs = int (length triedTableIPs),
               Percentage = float64_div (length triedReachableIPs) (length triedTableIPs),
               OldestIPAge = OldestIP triedTableIPs,
               Age = triedAge\<rparr>))))"

section \<open>Output and the whole run\<close>

text \<open>
  The row that \<open>WriteOutput\<close> writes for one table, as the values of its columns in
  order, before they are rendered as text.
\<close>

record row =
  Approx_Peerdat_Date :: uint32
  Oldest_IP_Days :: int
  Total_IPs :: int
  PercentReachable :: float64
  Age_1 :: int
  Age_1_5 :: int
  Age_5_10 :: int
  Age_10_30 :: int
  Age_30 :: int

definition pretty :: "uint32 \<Rightarrow> Result \<Rightarrow> row" where
  "pretty approxAge result =
     \<lparr>Approx_Peerdat_Date = approxAge,
      Oldest_IP_Days = daysOldestIP approxAge (OldestIPAge result),
      Total_IPs = TotalIPs result,
      PercentReachable = times100 (Percentage result),
      Age_1 = LessThanOne (Age result),
      Age_1_5 = OneToFive (Age result),
      Age_5_10 = FiveToTen (Age result),
      Age_10_30 = TenToThirty (Age result),
      Age_30 = GreaterThanThirty (Age result)\<rparr>"

text \<open>
  What a run of \<open>main\<close> does that can be seen from outside, in order: the lines it
  prints and the two rows it writes; and how the run ends.
\<close>

datatype event =
    PrintErr string
  | PrintApproxAge uint32
  | PrintClosest uint32
  | WriteStats row row

datatype outcome = Finished | Panicked error | NoReturn

text \<open>
  \<open>main\<close>, given what \<open>NewPeersDB\<close> returned (a database value and an error or
  \<open>nil\<close>), the lines of the timestamp file, and for each timestamp the lines of the
  reachability file named after it.
\<close>

definition main ::
    "PeersDB \<times> string option \<Rightarrow> string list \<Rightarrow> (uint32 \<Rightarrow> string list)
       \<Rightarrow> event list \<times> outcome" where
  "main decoded tsLines bitnodeFiles =
     (let peersDb = fst decoded;
          printed = (case snd decoded of None \<Rightarrow> [] | Some err \<Rightarrow> [PrintErr err])
      in case ApproxAge peersDb of
           Inl e \<Rightarrow> (printed, Panicked e)
         | Inr approxAge \<Rightarrow>
        (case ClosestBitnodeTS tsLines approxAge of
           None \<Rightarrow> (printed @ [PrintApproxAge approxAge], NoReturn)
         | Some (Inl e) \<Rightarrow> (printed @ [PrintApproxAge approxAge], Panicked e)
         | Some (Inr bitnodeTS) \<Rightarrow>
        (case ComputeStats (bitnodeFiles bitnodeTS) approxAge
                (NewAddrInfo peersDb) (TriedAddrInfo peersDb) of
           Inl e \<Rightarrow>
             (printed @ [PrintApproxAge approxAge, PrintClosest bitnodeTS], Panicked e)
         | Inr (newResult, oldResult) \<Rightarrow>
             (printed @ [PrintApproxAge approxAge, PrintClosest bitnodeTS,
                         WriteStats (pretty approxAge newResult) (pretty approxAge oldResult)],
              Finished))))"

text \<open>An address record from its text and its time, for concrete tables.\<close>

definition peer :: "string \<Rightarrow> uint32 \<Rightarrow> CAddrInfo" where
  "peer a t = \<lparr>Address = \<lparr>PeerAddress = a, Time = t\<rparr>\<rparr>"

text \<open>The last-seen timestamps of all records of a database, both tables together.\<close>

definition record_times :: "PeersDB \<Rightarrow> uint32 set" where
  "record_times peersDb =
     (\<lambda>r. Time (Address r)) ` set (NewAddrInfo peersDb @ TriedAddrInfo peersDb)"

text \<open>
  What \<open>ComputeStats\<close> returns for a table without records, and concrete databases:
  one without records, one with three.
\<close>

definition empty_result :: Result where
  "empty_result =
     \<lparr>NumberOfReachableIPs = 0, TotalIPs = 0, Percentage = NaN, OldestIPAge = 2000000000,
      Age = \<lparr>LessThanOne = 0, OneToFive = 0, FiveToTen = 0, TenToThirty = 0,
             GreaterThanThirty = 0\<rparr>\<rparr>"

definition no_records :: PeersDB where
  "no_records = \<lparr>NNew = 0, NTried = 0, NewAddrInfo = [], TriedAddrInfo = []\<rparr>"

definition three_peers :: PeersDB where
  "three_peers =
     \<lparr>NNew = 2, NTried = 1,
      NewAddrInfo = [peer ''1.2.3.4:8333'' 90, peer ''9.9.9.9:8333'' 95],
      TriedAddrInfo = [peer ''5.6.7.8:8333'' 99]\<rparr>"

text \<open>
  The distance of two timestamps as numbers; and what it is for \<open>r\<close> to be a closest
  member of a sequence to a target, the later one where two members are equally close.
\<close>

definition distance :: "uint32 \<Rightarrow> uint32 \<Rightarrow> int" where
  "distance a b = \<bar>uint a - uint b\<bar>"

definition closest_upper :: "uint32 list \<Rightarrow> uint32 \<Rightarrow> uint32 \<Rightarrow> bool" where
  "closest_upper tsArray elem r =
     (r \<in> set tsArray
      \<and> (\<forall>y \<in> set tsArray. distance r elem \<le> distance y elem)
      \<and> (\<forall>y \<in> set tsArray. distance y elem = distance r elem \<longrightarrow> y \<le> r))"

section \<open>The oldest record\<close>

lemma OldestIP_loop_Min:
  "OldestIP_loop oldestIP table = Min (insert oldestIP ((\<lambda>r. Time (Address r)) ` set table))"
proof (induction table arbitrary: oldestIP)
  case Nil
  show ?case by simp
next
  case (Cons r table)
  let ?t = "Time (Address r)"
  let ?S = "(\<lambda>r. Time (Address r)) ` set table"
  have fin: "finite ?S" by simp
  have step: "(if oldestIP > ?t then ?t else oldestIP) = min oldestIP ?t"
    by (auto simp: min_def)
  have "OldestIP_loop oldestIP (r # table) = OldestIP_loop (min oldestIP ?t) table"
    by (simp only: OldestIP_loop.simps step)
  also have "\<dots> = Min (insert (min oldestIP ?t) ?S)"
    by (rule Cons.IH)
  also have "\<dots> = Min (insert oldestIP (insert ?t ?S))"
  proof (cases "?S = {}")
    case True
    then show ?thesis by simp
  next
    case False
    with fin show ?thesis by (simp add: min.assoc)
  qed
  finally show ?case by simp
qed

text \<open>
  C10: for every table, \<open>OldestIP\<close> returns the minimum of 2000000000 and the records'
  last-seen timestamps. On an empty table that is the sentinel 2000000000, which
  \<open>WriteOutput\<close> turns into the day count \<open>(approxAge - 2000000000) / 86400\<close>; and
  no record, whatever its timestamp, raises the result above 2000000000.
\<close>

theorem OldestIP_min_sentinel:
  "OldestIP table = Min (insert 2000000000 ((\<lambda>r. Time (Address r)) ` set table))
   \<and> OldestIP [] = 2000000000
   \<and> OldestIP table \<le> 2000000000
   \<and> daysOldestIP approxAge (OldestIP []) = (uint approxAge - 2000000000) sdiv 86400"
proof -
  have m: "OldestIP table = Min (insert 2000000000 ((\<lambda>r. Time (Address r)) ` set table))"
    by (simp add: OldestIP_def OldestIP_loop_Min)
  have le: "OldestIP table \<le> 2000000000"
    unfolding m by (rule Min_le) simp_all
  have e: "OldestIP [] = 2000000000"
    by (simp add: OldestIP_def)
  have d: "daysOldestIP approxAge (OldestIP []) = (uint approxAge - 2000000000) sdiv 86400"
    by (simp add: e daysOldestIP_def ONE_DAY_def)
  from m e le d show ?thesis by blast
qed

section \<open>Age buckets\<close>

text \<open>
  C5: the age is to be the signed difference \<open>approxAge - ipTimestamp\<close>, and a negative
  difference is to count in the first bucket. With reference time 100 and a record
  seen at 101 the signed difference is \<open>-1\<close>, yet \<open>AddToAgeBucket\<close> subtracts on
  \<open>uint32\<close> first, gets 4294967295 and increments the last bucket.
\<close>

theorem AddToAgeBucket_newer_record:
  "uint (100 :: uint32) - uint (101 :: uint32) < 0
   \<and> AddToAgeBucket b 101 100 = b\<lparr>GreaterThanThirty := GreaterThanThirty b + 1\<rparr>"
proof -
  have w: "uint ((100 :: uint32) - 101) = 4294967295"
    by code_simp
  show ?thesis
    unfolding AddToAgeBucket_def w
    by (simp add: ONE_DAY_def FIVE_DAYS_def TEN_DAYS_def THIRTY_DAYS_def)
qed

lemma AddToAgeBucket_delta:
  "bucket_delta b (AddToAgeBucket b ipTimestamp approxAge)
     \<in> {[1, 0, 0, 0, 0], [0, 1, 0, 0, 0], [0, 0, 1, 0, 0], [0, 0, 0, 1, 0], [0, 0, 0, 0, 1]}"
  by (simp add: AddToAgeBucket_def bucket_delta_def Let_def)

lemma AddToAgeBucket_sum:
  "bucket_sum (AddToAgeBucket b ipTimestamp approxAge) = bucket_sum b + 1"
  by (simp add: AddToAgeBucket_def bucket_sum_def Let_def)

lemma table_loop_sum:
  "table_loop m b approxAge table = Inr (m', b') \<Longrightarrow> bucket_sum b' = bucket_sum b + int (length table)"
proof (induction table arbitrary: m b)
  case Nil
  then show ?case by simp
next
  case (Cons r table)
  then show ?case
    by (auto split: sum.splits simp: AddToAgeBucket_sum)
qed

lemma ComputeStats_Inr:
  assumes "ComputeStats bitnodeLines approxAge newT triedT = Inr (newR, triedR)"
  obtains mn mt where
    "table_loop Map.empty (Age CreateResult) approxAge newT = Inr (mn, Age newR)"
    "table_loop Map.empty (Age CreateResult) approxAge triedT = Inr (mt, Age triedR)"
    "NumberOfReachableIPs newR = int (length (filter (\<lambda>ip. mn ip \<noteq> None) bitnodeLines))"
    "NumberOfReachableIPs triedR = int (length (filter (\<lambda>ip. mt ip \<noteq> None) bitnodeLines))"
    "TotalIPs newR = int (length newT)" "TotalIPs triedR = int (length triedT)"
    "Percentage newR = float64_div (length (filter (\<lambda>ip. mn ip \<noteq> None) bitnodeLines)) (length newT)"
    "Percentage triedR = float64_div (length (filter (\<lambda>ip. mt ip \<noteq> None) bitnodeLines)) (length triedT)"
    "OldestIPAge newR = OldestIP newT" "OldestIPAge triedR = OldestIP triedT"
  using assms unfolding ComputeStats_def
  by (auto split: sum.splits prod.splits simp: Let_def)

text \<open>
  C7: whenever \<open>ComputeStats\<close> returns, the five counters of each table sum to that
  table's record count (its \<open>TotalIPs\<close>); and every call of \<open>AddToAgeBucket\<close>
  raises exactly one of the five counters, by one, and leaves the other four as they
  were.
\<close>

theorem ComputeStats_bucket_sum:
  assumes "ComputeStats bitnodeLines approxAge newT triedT = Inr (newR, triedR)"
  shows "bucket_sum (Age newR) = int (length newT)
       \<and> bucket_sum (Age triedR) = int (length triedT)
       \<and> bucket_sum (Age newR) = TotalIPs newR
       \<and> bucket_sum (Age triedR) = TotalIPs triedR
       \<and> bucket_delta b (AddToAgeBucket b ipTimestamp approxAge')
           \<in> {[1, 0, 0, 0, 0], [0, 1, 0, 0, 0], [0, 0, 1, 0, 0], [0, 0, 0, 1, 0], [0, 0, 0, 0, 1]}"
proof -
  from assms obtain mn mt where
    n: "table_loop Map.empty (Age CreateResult) approxAge newT = Inr (mn, Age newR)" and
    t: "table_loop Map.empty (Age CreateResult) approxAge triedT = Inr (mt, Age triedR)" and
    tn: "TotalIPs newR = int (length newT)" and tt: "TotalIPs triedR = int (length triedT)"
    by (rule ComputeStats_Inr)
  have z: "bucket_sum (Age CreateResult) = 0"
    by (simp add: CreateResult_def bucket_sum_def)
  from table_loop_sum [OF n] z have sn: "bucket_sum (Age newR) = int (length newT)" by simp
  from table_loop_sum [OF t] z have st: "bucket_sum (Age triedR) = int (length triedT)" by simp
  from sn st tn tt AddToAgeBucket_delta [of b ipTimestamp approxAge'] show ?thesis by simp
qed

lemma ComputeStats_example: "ComputeStats [''1.2.3.4'', ''5.6.7.8''] 100 [peer ''1.2.3.4:8333'' 90, peer ''9.9.9.9:8333'' 95] [peer ''5.6.7.8:8333'' 99]
  = Inr (\<lparr>NumberOfReachableIPs = 1, TotalIPs = 2, Percentage = Finite (1 / 2),
         OldestIPAge = 90,
         Age =
           \<lparr>LessThanOne = 2, OneToFive = 0, FiveToTen = 0, TenToThirty = 0,
              GreaterThanThirty = 0\<rparr>\<rparr>,
      \<lparr>NumberOfReachableIPs = 1, TotalIPs = 1, Percentage = Finite 1,
         OldestIPAge = 99,
         Age =
           \<lparr>LessThanOne = 1, OneToFive = 0, FiveToTen = 0, TenToThirty = 0,
              GreaterThanThirty = 0\<rparr>\<rparr>)"
  by code_simp

theorem ComputeStats_bucket_sum_witness:
  "ComputeStats [''1.2.3.4'', ''5.6.7.8''] 100 [peer ''1.2.3.4:8333'' 90, peer ''9.9.9.9:8333'' 95] [peer ''5.6.7.8:8333'' 99]
  = Inr (\<lparr>NumberOfReachableIPs = 1, TotalIPs = 2, Percentage = Finite (1 / 2),
         OldestIPAge = 90,
         Age =
           \<lparr>LessThanOne = 2, OneToFive = 0, FiveToTen = 0, TenToThirty = 0,
              GreaterThanThirty = 0\<rparr>\<rparr>,
      \<lparr>NumberOfReachableIPs = 1, TotalIPs = 1, Percentage = Finite 1,
         OldestIPAge = 99,
         Age =
           \<lparr>LessThanOne = 1, OneToFive = 0, FiveToTen = 0, TenToThirty = 0,
              GreaterThanThirty = 0\<rparr>\<rparr>)
   \<and> bucket_sum \<lparr>LessThanOne = 2, OneToFive = 0, FiveToTen = 0, TenToThirty = 0,
              GreaterThanThirty = 0\<rparr> = 2"
  using ComputeStats_bucket_sum [OF ComputeStats_example] ComputeStats_example by simp

section \<open>Address normalisation\<close>

text \<open>
  C4: the set of a table is to hold each record's bare address, the whole port suffix
  removed whatever its number of digits. \<open>ComputeStats\<close> removes the last five
  characters: for port 18333 the colon stays, for port 80 part of the address goes, and
  a record \<open>1.2.3.4:18333\<close> is not matched by the reachable address \<open>1.2.3.4\<close>
  while \<open>1.2.3.4:8333\<close> is.
\<close>

theorem clip_port_fixed_width:
  "clip_port ''1.2.3.4:18333'' = Inr ''1.2.3.4:''
   \<and> clip_port ''1.2.3.4:80'' = Inr ''1.2.3''
   \<and> ComputeStats [''1.2.3.4''] 100 [peer ''1.2.3.4:18333'' 90] [peer ''1.2.3.4:8333'' 90] =
       Inr (\<lparr>NumberOfReachableIPs = 0, TotalIPs = 1, Percentage = Finite 0, OldestIPAge = 90,
             Age = \<lparr>LessThanOne = 1, OneToFive = 0, FiveToTen = 0, TenToThirty = 0,
                    GreaterThanThirty = 0\<rparr>\<rparr>,
            \<lparr>NumberOfReachableIPs = 1, TotalIPs = 1, Percentage = Finite 1, OldestIPAge = 90,
             Age = \<lparr>LessThanOne = 1, OneToFive = 0, FiveToTen = 0, TenToThirty = 0,
                    GreaterThanThirty = 0\<rparr>\<rparr>)"
  by code_simp

section \<open>Reachable counts and percentages\<close>

lemma table_loop_dom:
  "table_loop m b approxAge table = Inr (m', b') \<Longrightarrow> finite (dom m) \<Longrightarrow>
     finite (dom m') \<and> card (dom m') \<le> card (dom m) + length table"
proof (induction table arbitrary: m b)
  case Nil
  then show ?case by simp
next
  case (Cons r table)
  from Cons.prems(1) obtain bare where
    c: "clip_port (PeerAddress (Address r)) = Inr bare" and
    rest: "table_loop (m(bare \<mapsto> True)) (AddToAgeBucket b (Time (Address r)) approxAge)
             approxAge table = Inr (m', b')"
    by (auto split: sum.splits)
  have fin: "finite (dom (m(bare \<mapsto> True)))"
    using Cons.prems(2) by simp
  have step: "card (dom (m(bare \<mapsto> True))) \<le> card (dom m) + 1"
    using Cons.prems(2) by (simp add: card_insert_if)
  from Cons.IH [OF rest fin] have f': "finite (dom m')"
    and le: "card (dom m') \<le> card (dom (m(bare \<mapsto> True))) + length table"
    by blast+
  from le step have "card (dom m') \<le> card (dom m) + length (r # table)"
    by simp
  with f' show ?case by blast
qed

lemma filter_distinct_le_card:
  assumes "distinct xs" "finite S"
  shows "length (filter (\<lambda>x. x \<in> S) xs) \<le> card S"
proof -
  have "length (filter (\<lambda>x. x \<in> S) xs) = card (set (filter (\<lambda>x. x \<in> S) xs))"
    by (rule distinct_card [symmetric]) (simp add: assms(1))
  also have "\<dots> \<le> card S"
    using assms(2) by (intro card_mono) auto
  finally show ?thesis .
qed

lemma reachable_le_total:
  assumes "table_loop Map.empty b approxAge table = Inr (m, b')" "distinct bitnodeLines"
  shows "length (filter (\<lambda>ip. m ip \<noteq> None) bitnodeLines) \<le> length table"
proof -
  from table_loop_dom [OF assms(1)] have f: "finite (dom m)" and c: "card (dom m) \<le> length table"
    by simp_all
  have "(\<lambda>ip. m ip \<noteq> None) = (\<lambda>ip. ip \<in> dom m)" by (auto simp: dom_def)
  with filter_distinct_le_card [OF assms(2) f] c show ?thesis by simp
qed

lemma float64_div_unit:
  "a \<le> b \<Longrightarrow> 0 < b \<Longrightarrow> \<exists>q. float64_div a b = Finite q \<and> 0 \<le> q \<and> q \<le> 1"
  by (simp add: float64_div_def)

text \<open>
  C8, amended: for every reachability file without duplicate lines, whenever
  \<open>ComputeStats\<close> returns, each table has
  \<open>0 \<le> reachable count \<le> total record count\<close>, and the reachable fraction is a
  number between 0 and 1 whenever the total is positive.
\<close>

theorem ComputeStats_reachable_bounds:
  assumes "distinct bitnodeLines"
    and "ComputeStats bitnodeLines approxAge newT triedT = Inr (newR, triedR)"
  shows "0 \<le> NumberOfReachableIPs newR \<and> NumberOfReachableIPs newR \<le> TotalIPs newR
       \<and> 0 \<le> NumberOfReachableIPs triedR \<and> NumberOfReachableIPs triedR \<le> TotalIPs triedR
       \<and> (0 < TotalIPs newR \<longrightarrow> (\<exists>q. Percentage newR = Finite q \<and> 0 \<le> q \<and> q \<le> 1))
       \<and> (0 < TotalIPs triedR \<longrightarrow> (\<exists>q. Percentage triedR = Finite q \<and> 0 \<le> q \<and> q \<le> 1))"
proof -
  from assms(2) obtain mn mt where
    n: "table_loop Map.empty (Age CreateResult) approxAge newT = Inr (mn, Age newR)" and
    t: "table_loop Map.empty (Age CreateResult) approxAge triedT = Inr (mt, Age triedR)" and
    rn: "NumberOfReachableIPs newR = int (length (filter (\<lambda>ip. mn ip \<noteq> None) bitnodeLines))" and
    rt: "NumberOfReachableIPs triedR = int (length (filter (\<lambda>ip. mt ip \<noteq> None) bitnodeLines))" and
    tn: "TotalIPs newR = int (length newT)" and tt: "TotalIPs triedR = int (length triedT)" and
    pn: "Percentage newR = float64_div (length (filter (\<lambda>ip. mn ip \<noteq> None) bitnodeLines)) (length newT)" and
    pt: "Percentage triedR = float64_div (length (filter (\<lambda>ip. mt ip \<noteq> None) bitnodeLines)) (length triedT)"
    by (rule ComputeStats_Inr)
  note ln = reachable_le_total [OF n assms(1)]
  note lt = reachable_le_total [OF t assms(1)]
  have a: "0 \<le> NumberOfReachableIPs newR \<and> NumberOfReachableIPs newR \<le> TotalIPs newR"
    using rn tn ln by simp
  have b: "0 \<le> NumberOfReachableIPs triedR \<and> NumberOfReachableIPs triedR \<le> TotalIPs triedR"
    using rt tt lt by simp
  have c: "\<exists>q. Percentage newR = Finite q \<and> 0 \<le> q \<and> q \<le> 1" if "0 < TotalIPs newR"
    unfolding pn using that tn by (intro float64_div_unit ln) simp
  have d: "\<exists>q. Percentage triedR = Finite q \<and> 0 \<le> q \<and> q \<le> 1" if "0 < TotalIPs triedR"
    unfolding pt using that tt by (intro float64_div_unit lt) simp
  from a b c d show ?thesis by blast
qed

theorem ComputeStats_reachable_bounds_witness:
  "distinct [''1.2.3.4'', ''5.6.7.8'']
   \<and> ComputeStats [''1.2.3.4'', ''5.6.7.8''] 100
        [peer ''1.2.3.4:8333'' 90, peer ''9.9.9.9:8333'' 95] [peer ''5.6.7.8:8333'' 99] =
      Inr (\<lparr>NumberOfReachableIPs = 1, TotalIPs = 2, Percentage = Finite (1 / 2),
         OldestIPAge = 90,
         Age =
           \<lparr>LessThanOne = 2, OneToFive = 0, FiveToTen = 0, TenToThirty = 0,
              GreaterThanThirty = 0\<rparr>\<rparr>,
      \<lparr>NumberOfReachableIPs = 1, TotalIPs = 1, Percentage = Finite 1,
         OldestIPAge = 99,
         Age =
           \<lparr>LessThanOne = 1, OneToFive = 0, FiveToTen = 0, TenToThirty = 0,
              GreaterThanThirty = 0\<rparr>\<rparr>)
   \<and> (1 :: int) \<le> 2 \<and> (\<exists>q. Finite (1 / 2) = Finite q \<and> 0 \<le> q \<and> q \<le> 1)"
proof -
  have d: "distinct [''1.2.3.4'', ''5.6.7.8'']" by simp
  from ComputeStats_reachable_bounds [OF d ComputeStats_example] d ComputeStats_example
  show ?thesis by simp
qed

text \<open>
  With a line that occurs twice, the one record of the table is counted twice: two
  reachable addresses out of one, a fraction of 2.
\<close>

theorem ComputeStats_duplicate_lines_counterexample:
  "ComputeStats [''1.2.3.4'', ''1.2.3.4''] 100 [peer ''1.2.3.4:8333'' 90] [] =
       Inr (\<lparr>NumberOfReachableIPs = 2, TotalIPs = 1, Percentage = Finite 2, OldestIPAge = 90,
             Age = \<lparr>LessThanOne = 1, OneToFive = 0, FiveToTen = 0, TenToThirty = 0,
                    GreaterThanThirty = 0\<rparr>\<rparr>,
            \<lparr>NumberOfReachableIPs = 0, TotalIPs = 0, Percentage = NaN, OldestIPAge = 2000000000,
             Age = \<lparr>LessThanOne = 0, OneToFive = 0, FiveToTen = 0, TenToThirty = 0,
                    GreaterThanThirty = 0\<rparr>\<rparr>)"
  by code_simp

text \<open>
  C6, amended: for a table with zero records, whenever \<open>ComputeStats\<close> returns, the
  reachable count and the total are 0 and the percentage is the quotient \<open>0 / 0\<close> of
  \<open>float64\<close>, which is \<open>NaN\<close>; \<open>WriteOutput\<close> passes \<open>NaN\<close> on to the row it
  writes. No other value marks the empty table.
\<close>

theorem ComputeStats_empty_table_NaN:
  assumes "ComputeStats bitnodeLines approxAge newT triedT = Inr (newR, triedR)"
  shows "(newT = [] \<longrightarrow>
            NumberOfReachableIPs newR = 0 \<and> TotalIPs newR = 0 \<and> Percentage newR = NaN
            \<and> PercentReachable (pretty approxAge newR) = NaN)
       \<and> (triedT = [] \<longrightarrow>
            NumberOfReachableIPs triedR = 0 \<and> TotalIPs triedR = 0 \<and> Percentage triedR = NaN
            \<and> PercentReachable (pretty approxAge triedR) = NaN)"
proof -
  from assms obtain mn mt where
    n: "table_loop Map.empty (Age CreateResult) approxAge newT = Inr (mn, Age newR)" and
    t: "table_loop Map.empty (Age CreateResult) approxAge triedT = Inr (mt, Age triedR)" and
    rn: "NumberOfReachableIPs newR = int (length (filter (\<lambda>ip. mn ip \<noteq> None) bitnodeLines))" and
    rt: "NumberOfReachableIPs triedR = int (length (filter (\<lambda>ip. mt ip \<noteq> None) bitnodeLines))" and
    tn: "TotalIPs newR = int (length newT)" and tt: "TotalIPs triedR = int (length triedT)" and
    pn: "Percentage newR = float64_div (length (filter (\<lambda>ip. mn ip \<noteq> None) bitnodeLines)) (length newT)" and
    pt: "Percentage triedR = float64_div (length (filter (\<lambda>ip. mt ip \<noteq> None) bitnodeLines)) (length triedT)"
    by (rule ComputeStats_Inr)
  have new: "NumberOfReachableIPs newR = 0 \<and> TotalIPs newR = 0 \<and> Percentage newR = NaN
            \<and> PercentReachable (pretty approxAge newR) = NaN" if e: "newT = []"
  proof -
    from n e have "mn = Map.empty" by simp
    with rn tn pn e show ?thesis by (simp add: float64_div_def pretty_def)
  qed
  have tried: "NumberOfReachableIPs triedR = 0 \<and> TotalIPs triedR = 0 \<and> Percentage triedR = NaN
            \<and> PercentReachable (pretty approxAge triedR) = NaN" if e: "triedT = []"
  proof -
    from t e have "mt = Map.empty" by simp
    with rt tt pt e show ?thesis by (simp add: float64_div_def pretty_def)
  qed
  from new tried show ?thesis by blast
qed

theorem ComputeStats_empty_table_NaN_witness:
  "ComputeStats [''1.2.3.4''] 100 [] [] =
       Inr (\<lparr>NumberOfReachableIPs = 0, TotalIPs = 0, Percentage = NaN, OldestIPAge = 2000000000,
             Age = \<lparr>LessThanOne = 0, OneToFive = 0, FiveToTen = 0, TenToThirty = 0,
                    GreaterThanThirty = 0\<rparr>\<rparr>,
            \<lparr>NumberOfReachableIPs = 0, TotalIPs = 0, Percentage = NaN, OldestIPAge = 2000000000,
             Age = \<lparr>LessThanOne = 0, OneToFive = 0, FiveToTen = 0, TenToThirty = 0,
                    GreaterThanThirty = 0\<rparr>\<rparr>)
   \<and> PercentReachable (pretty 100
         \<lparr>NumberOfReachableIPs = 0, TotalIPs = 0, Percentage = NaN, OldestIPAge = 2000000000,
             Age = \<lparr>LessThanOne = 0, OneToFive = 0, FiveToTen = 0, TenToThirty = 0,
                    GreaterThanThirty = 0\<rparr>\<rparr>) = NaN"
proof -
  have run: "ComputeStats [''1.2.3.4''] 100 [] [] =
       Inr (\<lparr>NumberOfReachableIPs = 0, TotalIPs = 0, Percentage = NaN, OldestIPAge = 2000000000,
             Age = \<lparr>LessThanOne = 0, OneToFive = 0, FiveToTen = 0, TenToThirty = 0,
                    GreaterThanThirty = 0\<rparr>\<rparr>,
            \<lparr>NumberOfReachableIPs = 0, TotalIPs = 0, Percentage = NaN, OldestIPAge = 2000000000,
             Age = \<lparr>LessThanOne = 0, OneToFive = 0, FiveToTen = 0, TenToThirty = 0,
                    GreaterThanThirty = 0\<rparr>\<rparr>)"
    by code_simp
  from ComputeStats_empty_table_NaN [OF run] run show ?thesis by simp
qed

text \<open>An empty new table beside a tried table with one record: the division is made all the same.\<close>

theorem ComputeStats_empty_table_counterexample:
  "ComputeStats [''1.2.3.4''] 100 [] [peer ''1.2.3.4:8333'' 90] =
       Inr (\<lparr>NumberOfReachableIPs = 0, TotalIPs = 0, Percentage = NaN, OldestIPAge = 2000000000,
             Age = \<lparr>LessThanOne = 0, OneToFive = 0, FiveToTen = 0, TenToThirty = 0,
                    GreaterThanThirty = 0\<rparr>\<rparr>,
            \<lparr>NumberOfReachableIPs = 1, TotalIPs = 1, Percentage = Finite 1, OldestIPAge = 90,
             Age = \<lparr>LessThanOne = 1, OneToFive = 0, FiveToTen = 0, TenToThirty = 0,
                    GreaterThanThirty = 0\<rparr>\<rparr>)"
  by code_simp

section \<open>Snapshot lookup\<close>

text \<open>
  C3: the lookup is to stay inside the sequence, to return the single element of a
  sequence of length 1, and to fail with an error of its own on the empty sequence.
  \<open>ClosestBitnodeTS\<close> calls \<open>BinSearch\<close> with \<open>high = len(tsArray)\<close>, and
  \<open>BinSearch\<close> reads \<open>tsArray[high]\<close>: on the one timestamp 100 and target 50,
  and on no timestamp at all, the run panics with an index out of range.
\<close>

theorem ClosestBitnodeTS_short_sequences:
  "ClosestBitnodeTS [''100''] 50 = Some (Inl IndexOutOfRange)
   \<and> ClosestBitnodeTS [] 50 = Some (Inl IndexOutOfRange)"
  by code_simp

section \<open>Age estimate\<close>

lemma Max_insert_step:
  fixes a t :: uint32
  assumes "finite S"
  shows "Max (insert (if a < t then t else a) S) = Max (insert a (insert t S))"
proof -
  have step: "(if a < t then t else a) = max a t"
    by (auto simp: max_def)
  show ?thesis
  proof (cases "S = {}")
    case True
    then show ?thesis by (simp add: step)
  next
    case False
    with assms show ?thesis by (simp add: step max.assoc)
  qed
qed

lemma ApproxAge_loop_Max:
  "n \<le> length table \<Longrightarrow>
     ApproxAge_loop table n i approxAge =
       Inr (Max (insert approxAge ((\<lambda>r. Time (Address r)) ` set (drop i (take n table)))))"
proof (induction table n i approxAge rule: ApproxAge_loop.induct)
  case (1 table n i approxAge)
  show ?case
  proof (cases "i < n")
    case False
    then have "drop i (take n table) = []" by simp
    with False show ?thesis by (subst ApproxAge_loop.simps) simp
  next
    case True
    with "1.prems" have il: "i < length table" by simp
    let ?t = "Time (Address (table ! i))"
    let ?S = "(\<lambda>r. Time (Address r)) ` set (drop (Suc i) (take n table))"
    from True "1.prems" have d: "drop i (take n table) = (table ! i) # drop (Suc i) (take n table)"
      by (simp add: Cons_nth_drop_Suc [symmetric])
    have "ApproxAge_loop table n i approxAge =
            ApproxAge_loop table n (Suc i) (if approxAge < ?t then ?t else approxAge)"
      using True il by (subst ApproxAge_loop.simps) simp
    also have "\<dots> = Inr (Max (insert (if approxAge < ?t then ?t else approxAge) ?S))"
      using "1.IH" [OF True il "1.prems"] .
    also have "Max (insert (if approxAge < ?t then ?t else approxAge) ?S) =
                 Max (insert approxAge (insert ?t ?S))"
      by (rule Max_insert_step) simp
    finally show ?thesis by (simp add: d)
  qed
qed

lemma ApproxAge_Max:
  assumes "unat (NNew peersDb) = length (NewAddrInfo peersDb)"
    and "unat (NTried peersDb) = length (TriedAddrInfo peersDb)"
  shows "ApproxAge peersDb = Inr (Max (insert 0 (record_times peersDb)))"
proof -
  let ?N = "(\<lambda>r. Time (Address r)) ` set (NewAddrInfo peersDb)"
  let ?T = "(\<lambda>r. Time (Address r)) ` set (TriedAddrInfo peersDb)"
  have n: "ApproxAge_loop (NewAddrInfo peersDb) (unat (NNew peersDb)) 0 0 = Inr (Max (insert 0 ?N))"
    using ApproxAge_loop_Max [of "unat (NNew peersDb)" "NewAddrInfo peersDb" 0 0] assms(1)
    by simp
  have t: "ApproxAge_loop (TriedAddrInfo peersDb) (unat (NTried peersDb)) 0 (Max (insert 0 ?N)) =
             Inr (Max (insert (Max (insert 0 ?N)) ?T))"
    using ApproxAge_loop_Max [of "unat (NTried peersDb)" "TriedAddrInfo peersDb" 0] assms(2)
    by simp
  have "Max (insert (Max (insert 0 ?N)) ?T) = Max (insert 0 ?N \<union> ?T)"
  proof (cases "?T = {}")
    case True
    then show ?thesis by simp
  next
    case False
    have "Max (insert 0 ?N \<union> ?T) = max (Max (insert 0 ?N)) (Max ?T)"
      using False by (intro Max_Un) simp_all
    also have "\<dots> = Max (insert (Max (insert 0 ?N)) ?T)"
      using False by simp
    finally show ?thesis by simp
  qed
  also have "insert 0 ?N \<union> ?T = insert 0 (record_times peersDb)"
    by (auto simp: record_times_def)
  finally show ?thesis
    by (simp add: ApproxAge_def n t)
qed

lemma ComputeStats_no_records:
  "ComputeStats bitnodeLines approxAge [] [] = Inr (empty_result, empty_result)"
  by (simp add: ComputeStats_def empty_result_def CreateResult_def float64_div_def OldestIP_def)

text \<open>
  C9, amended: for a database whose declared counts \<open>NNew\<close> and \<open>NTried\<close> are the
  lengths of its tables, \<open>ApproxAge\<close> returns a value that no record's timestamp
  exceeds; with at least one record it is the maximum timestamp over both tables, the
  timestamp of some record; with no record it is 0, and \<open>main\<close> goes on with age 0
  to the snapshot lookup, the statistics and the output, as for any other age.
\<close>

theorem ApproxAge_max_or_zero:
  assumes "unat (NNew peersDb) = length (NewAddrInfo peersDb)"
    and "unat (NTried peersDb) = length (TriedAddrInfo peersDb)"
  shows "\<exists>approxAge. ApproxAge peersDb = Inr approxAge
       \<and> (\<forall>t \<in> record_times peersDb. t \<le> approxAge)
       \<and> (record_times peersDb \<noteq> {} \<longrightarrow>
            approxAge = Max (record_times peersDb) \<and> approxAge \<in> record_times peersDb)
       \<and> (record_times peersDb = {} \<longrightarrow>
            approxAge = 0
            \<and> main (peersDb, None) tsLines bitnodeFiles =
                (case ClosestBitnodeTS tsLines 0 of
                   None \<Rightarrow> ([PrintApproxAge 0], NoReturn)
                 | Some (Inl e) \<Rightarrow> ([PrintApproxAge 0], Panicked e)
                 | Some (Inr bitnodeTS) \<Rightarrow>
                     ([PrintApproxAge 0, PrintClosest bitnodeTS,
                       WriteStats (pretty 0 empty_result) (pretty 0 empty_result)], Finished)))"
proof -
  let ?R = "record_times peersDb"
  let ?a = "Max (insert 0 ?R)"
  have fin: "finite ?R" by (simp add: record_times_def)
  have run: "ApproxAge peersDb = Inr ?a"
    using assms by (rule ApproxAge_Max)
  have ub: "\<forall>t \<in> ?R. t \<le> ?a"
    using fin by simp
  have ne: "?a = Max ?R \<and> ?a \<in> ?R" if "?R \<noteq> {}"
  proof -
    have "?a = max 0 (Max ?R)" using fin that by simp
    then have "?a = Max ?R" by (simp add: max_def)
    moreover have "Max ?R \<in> ?R" using fin that by (rule Max_in)
    ultimately show ?thesis by simp
  qed
  have em: "?a = 0 \<and> main (peersDb, None) tsLines bitnodeFiles =
                (case ClosestBitnodeTS tsLines 0 of
                   None \<Rightarrow> ([PrintApproxAge 0], NoReturn)
                 | Some (Inl e) \<Rightarrow> ([PrintApproxAge 0], Panicked e)
                 | Some (Inr bitnodeTS) \<Rightarrow>
                     ([PrintApproxAge 0, PrintClosest bitnodeTS,
                       WriteStats (pretty 0 empty_result) (pretty 0 empty_result)], Finished))"
    if e: "?R = {}"
  proof -
    from e have z: "?a = 0" by simp
    from e have tabs: "NewAddrInfo peersDb = []" "TriedAddrInfo peersDb = []"
      by (simp_all add: record_times_def)
    from run z have a0: "ApproxAge peersDb = Inr 0" by simp
    show ?thesis
      by (simp add: z main_def a0 tabs ComputeStats_no_records
               split: option.splits sum.splits)
  qed
  from run ub ne em show ?thesis by blast
qed

theorem ApproxAge_max_or_zero_witness:
  "unat (NNew three_peers) = length (NewAddrInfo three_peers)
   \<and> unat (NTried three_peers) = length (TriedAddrInfo three_peers)
   \<and> ApproxAge three_peers = Inr 99
   \<and> record_times three_peers = {90, 95, 99}"
proof -
  have n: "unat (NNew three_peers) = length (NewAddrInfo three_peers)"
    by (simp add: three_peers_def)
  have t: "unat (NTried three_peers) = length (TriedAddrInfo three_peers)"
    by (simp add: three_peers_def)
  have r: "record_times three_peers = {90, 95, 99}"
    by (simp add: record_times_def three_peers_def peer_def)
  from ApproxAge_max_or_zero [OF n t, of "[]" "\<lambda>bitnodeTS. []"] n t r show ?thesis
    by auto
qed

text \<open>The database without records: age 0, and a run that finishes with two rows written.\<close>

theorem ApproxAge_empty_database_counterexample:
  "ApproxAge no_records = Inr 0
   \<and> main (no_records, None) [''100'', ''200'', ''300''] (\<lambda>bitnodeTS. []) =
       ([PrintApproxAge 0, PrintClosest 200,
         WriteStats (pretty 0 empty_result) (pretty 0 empty_result)], Finished)"
  by code_simp

section \<open>Decode errors\<close>

text \<open>
  C1, amended: when \<open>NewPeersDB\<close> returns an error, \<open>main\<close> prints it and then
  does exactly what it does without the error, on the database value returned with
  it: age estimate, snapshot lookup, statistics and output all run.
\<close>

theorem main_continues_after_decode_error:
  "main (peersDb, Some err) tsLines bitnodeFiles =
     (PrintErr err # fst (main (peersDb, None) tsLines bitnodeFiles),
      snd (main (peersDb, None) tsLines bitnodeFiles))"
  by (simp add: main_def split: sum.splits option.splits prod.splits)

text \<open>
  A failed decode that returns the zero database: the run prints the error, takes age 0,
  picks the snapshot 200 and writes two rows of zeros.
\<close>

theorem main_decode_error_counterexample:
  "main (no_records, Some ''unexpected EOF'') [''100'', ''200'', ''300''] (\<lambda>bitnodeTS. []) =
     ([PrintErr ''unexpected EOF'', PrintApproxAge 0, PrintClosest 200,
       WriteStats
         \<lparr>Approx_Peerdat_Date = 0, Oldest_IP_Days = - 23148, Total_IPs = 0,
          PercentReachable = NaN, Age_1 = 0, Age_1_5 = 0, Age_5_10 = 0, Age_10_30 = 0,
          Age_30 = 0\<rparr>
         \<lparr>Approx_Peerdat_Date = 0, Oldest_IP_Days = - 23148, Total_IPs = 0,
          PercentReachable = NaN, Age_1 = 0, Age_1_5 = 0, Age_5_10 = 0, Age_10_30 = 0,
          Age_30 = 0\<rparr>],
      Finished)"
  by code_simp

section \<open>The closest snapshot\<close>

text \<open>
  The search on a sorted sequence, for a window \<open>low < high\<close> with the target at or
  above \<open>tsArray[low]\<close> and below \<open>tsArray[high]\<close> (or, with \<open>high\<close> at the end,
  at or below the last element): it returns, stays inside the sequence, and returns a
  closest member.
\<close>

lemma closest_upper_exact:
  "elem \<in> set xs \<Longrightarrow> closest_upper xs elem elem"
  by (auto simp: closest_upper_def distance_def word_le_def)

lemma closest_upper_between:
  assumes s: "sorted xs" and h: "Suc low < length xs"
    and l: "xs ! low < elem" and u: "elem < xs ! Suc low"
  shows "closest_upper xs elem
           (if elem - xs ! low < xs ! Suc low - elem then xs ! low else xs ! Suc low)"
proof -
  let ?l = "xs ! low" and ?h = "xs ! Suc low"
  have ul: "uint ?l < uint elem" using l by (simp add: word_less_def)
  have uh: "uint elem < uint ?h" using u by (simp add: word_less_def)
  have dl: "uint (elem - ?l) = uint elem - uint ?l"
    using ul by (simp add: uint_sub_lem [THEN iffD1])
  have dh: "uint (?h - elem) = uint ?h - uint elem"
    using uh by (simp add: uint_sub_lem [THEN iffD1])
  have cmp: "(elem - ?l < ?h - elem) = (uint elem - uint ?l < uint ?h - uint elem)"
    by (simp add: word_less_def dl dh)
  have split: "uint y \<le> uint ?l \<or> uint ?h \<le> uint y" if "y \<in> set xs" for y
  proof -
    from that obtain k where k: "k < length xs" "y = xs ! k"
      by (auto simp: in_set_conv_nth)
    show ?thesis
    proof (cases "k \<le> low")
      case True
      with s h k have "y \<le> ?l" by (simp add: sorted_nth_mono)
      then show ?thesis by (simp add: word_le_def)
    next
      case False
      then have "Suc low \<le> k" by simp
      with s k have "?h \<le> y" by (simp add: sorted_nth_mono)
      then show ?thesis by (simp add: word_le_def)
    qed
  qed
  have lin: "?l \<in> set xs" and hin: "?h \<in> set xs"
    using h by simp_all
  show ?thesis
  proof (cases "elem - ?l < ?h - elem")
    case True
    then have c: "uint elem - uint ?l < uint ?h - uint elem" by (simp add: cmp)
    have a: "distance ?l elem \<le> distance y elem" if "y \<in> set xs" for y
      using split [OF that] ul uh c by (auto simp: distance_def)
    have b: "y \<le> ?l" if "y \<in> set xs" "distance y elem = distance ?l elem" for y
      using split [OF that(1)] that(2) ul uh c by (auto simp: distance_def word_le_def)
    from True lin a b show ?thesis by (auto simp: closest_upper_def)
  next
    case False
    then have c: "uint ?h - uint elem \<le> uint elem - uint ?l" by (simp add: cmp)
    have a: "distance ?h elem \<le> distance y elem" if "y \<in> set xs" for y
      using split [OF that] ul uh c by (auto simp: distance_def)
    have b: "y \<le> ?h" if "y \<in> set xs" "distance y elem = distance ?h elem" for y
      using split [OF that(1)] that(2) ul uh c by (auto simp: distance_def word_le_def)
    from False hin a b show ?thesis by (auto simp: closest_upper_def)
  qed
qed

lemma BinSearch_window:
  assumes s: "sorted xs"
  shows "low < high \<Longrightarrow> high \<le> length xs \<Longrightarrow> xs ! low \<le> elem \<Longrightarrow>
         (if high < length xs then elem < xs ! high else elem \<le> last xs) \<Longrightarrow>
         \<exists>r. BinSearch low high elem xs = Some (Inr r) \<and> closest_upper xs elem r"
proof (induction "high - low" arbitrary: low high rule: less_induct)
  case less
  let ?mid = "(high + low) div 2"
  from less.prems have ml: "low \<le> ?mid" and mh: "?mid < high" by simp_all
  with less.prems have mlen: "?mid < length xs" by simp
  show ?case
  proof (cases "xs ! ?mid = elem")
    case True
    then have "BinSearch low high elem xs = Some (Inr elem)"
      using mlen by (subst BinSearch.simps) simp
    moreover have "elem \<in> set xs"
      using True mlen nth_mem by blast
    ultimately show ?thesis by (simp add: closest_upper_exact)
  next
    case ne: False
    show ?thesis
    proof (cases "?mid = low")
      case True
      with less.prems have hs: "high = Suc low" by linarith
      from ne True have nl: "xs ! low \<noteq> elem" by simp
      with less.prems have lt: "xs ! low < elem" by simp
      have hl: "high < length xs"
      proof (rule ccontr)
        assume "\<not> high < length xs"
        with less.prems have e: "high = length xs" "elem \<le> last xs" by simp_all
        with hs have "last xs = xs ! low"
          by (metis diff_Suc_1 last_conv_nth length_0_conv nat.distinct(1))
        with e lt show False by simp
      qed
      with less.prems have gt: "elem < xs ! Suc low" by (simp add: hs)
      have "BinSearch low high elem xs =
              Some (Inr (if elem - xs ! low < xs ! Suc low - elem then xs ! low else xs ! Suc low))"
        using mlen ne True hl by (subst BinSearch.simps) (simp add: hs)
      moreover from hl hs have "Suc low < length xs" by simp
      ultimately show ?thesis
        using closest_upper_between [OF s _ lt gt] by simp
    next
      case False
      with ml have lm: "low < ?mid" by simp
      show ?thesis
      proof (cases "elem < xs ! ?mid")
        case True
        have "BinSearch low high elem xs = BinSearch low ?mid elem xs"
          using mlen ne False True by (subst BinSearch.simps) simp
        moreover have "\<exists>r. BinSearch low ?mid elem xs = Some (Inr r) \<and> closest_upper xs elem r"
        proof (rule less.hyps)
          show "?mid - low < high - low" using mh lm by simp
          show "low < ?mid" by (rule lm)
          show "?mid \<le> length xs" using mlen by simp
          show "xs ! low \<le> elem" by (rule less.prems)
          show "if ?mid < length xs then elem < xs ! ?mid else elem \<le> last xs"
            using mlen True by simp
        qed
        ultimately show ?thesis by simp
      next
        case ge: False
        have "BinSearch low high elem xs = BinSearch ?mid high elem xs"
          using mlen ne False ge by (subst BinSearch.simps) simp
        moreover have "\<exists>r. BinSearch ?mid high elem xs = Some (Inr r) \<and> closest_upper xs elem r"
        proof (rule less.hyps)
          show "high - ?mid < high - low" using mh lm by simp
          show "?mid < high" by (rule mh)
          show "high \<le> length xs" by (rule less.prems)
          show "xs ! ?mid \<le> elem" using ge by simp
          show "if high < length xs then elem < xs ! high else elem \<le> last xs"
            by (rule less.prems)
        qed
        ultimately show ?thesis by simp
      qed
    qed
  qed
qed

text \<open>
  C2, amended: for every non-empty ascending sequence of timestamps and every target
  from the first timestamp to the last, \<open>ClosestBitnodeTS\<close> returns a member of
  the sequence, no member is strictly closer to the target, and of two members equally
  close it returns the higher (later) one.
\<close>

theorem ClosestBitnodeTS_closest:
  assumes "load_timestamps tsLines \<noteq> []"
    and "sorted (load_timestamps tsLines)"
    and "hd (load_timestamps tsLines) \<le> approxAge"
    and "approxAge \<le> last (load_timestamps tsLines)"
  shows "\<exists>r. ClosestBitnodeTS tsLines approxAge = Some (Inr r)
       \<and> r \<in> set (load_timestamps tsLines)
       \<and> (\<forall>y \<in> set (load_timestamps tsLines). distance r approxAge \<le> distance y approxAge)
       \<and> (\<forall>y \<in> set (load_timestamps tsLines).
             distance y approxAge = distance r approxAge \<longrightarrow> y \<le> r)"
proof -
  let ?xs = "load_timestamps tsLines"
  from assms(1) have pos: "0 < length ?xs" by simp
  from assms(1,3) have first: "?xs ! 0 \<le> approxAge" by (simp add: hd_conv_nth)
  have "\<exists>r. BinSearch 0 (length ?xs) approxAge ?xs = Some (Inr r) \<and> closest_upper ?xs approxAge r"
    using assms(2) pos _ first
  proof (rule BinSearch_window)
    show "length ?xs \<le> length ?xs" by simp
    show "if length ?xs < length ?xs then approxAge < ?xs ! length ?xs else approxAge \<le> last ?xs"
      using assms(4) by simp
  qed
  then show ?thesis
    by (simp add: ClosestBitnodeTS_def closest_upper_def Let_def)
qed

lemma load_three: "load_timestamps [''100'', ''200'', ''300''] = [100, 200, 300]"
  by code_simp

theorem ClosestBitnodeTS_closest_witness:
  "load_timestamps [''100'', ''200'', ''300''] \<noteq> []
   \<and> sorted (load_timestamps [''100'', ''200'', ''300''])
   \<and> hd (load_timestamps [''100'', ''200'', ''300'']) \<le> 250
   \<and> 250 \<le> last (load_timestamps [''100'', ''200'', ''300''])
   \<and> ClosestBitnodeTS [''100'', ''200'', ''300''] 250 = Some (Inr 300)
   \<and> 300 \<in> set (load_timestamps [''100'', ''200'', ''300''])
   \<and> distance 300 250 \<le> distance 100 250
   \<and> distance 300 250 \<le> distance 200 250
   \<and> distance 200 250 = distance 300 250 \<and> (200 :: uint32) \<le> 300"
proof -
  have a: "load_timestamps [''100'', ''200'', ''300''] \<noteq> []"
    by (simp add: load_three)
  have b: "sorted (load_timestamps [''100'', ''200'', ''300''])"
    by (simp add: load_three)
  have c: "hd (load_timestamps [''100'', ''200'', ''300'']) \<le> 250"
    by (simp add: load_three)
  have d: "250 \<le> last (load_timestamps [''100'', ''200'', ''300''])"
    by (simp add: load_three)
  have run: "ClosestBitnodeTS [''100'', ''200'', ''300''] 250 = Some (Inr 300)"
    by code_simp
  from ClosestBitnodeTS_closest [OF a b c d] run
  have "300 \<in> set (load_timestamps [''100'', ''200'', ''300''])
      \<and> (\<forall>y \<in> set (load_timestamps [''100'', ''200'', ''300'']).
            distance 300 250 \<le> distance y 250)
      \<and> (\<forall>y \<in> set (load_timestamps [''100'', ''200'', ''300'']).
            distance y 250 = distance 300 250 \<longrightarrow> y \<le> 300)"
    by simp
  then have "300 \<in> set (load_timestamps [''100'', ''200'', ''300''])
      \<and> distance 300 250 \<le> distance 100 250
      \<and> distance 300 250 \<le> distance 200 250
      \<and> distance 200 250 = distance 300 250 \<and> (200 :: uint32) \<le> 300"
    by (simp add: load_three distance_def)
  with run a b c d show ?thesis
    by simp
qed

text \<open>
  On the timestamps 100, 200, 300: target 250 is as far from 200 as from 300 and the
  later one is returned; target 0, below the first timestamp, gets 200 although 100 is
  closer; target 1000, above the last, ends in an index out of range.
\<close>

theorem ClosestBitnodeTS_counterexample:
  "ClosestBitnodeTS [''100'', ''200'', ''300''] 250 = Some (Inr 300)
   \<and> distance 200 250 = distance 300 250
   \<and> ClosestBitnodeTS [''100'', ''200'', ''300''] 0 = Some (Inr 200)
   \<and> distance 100 0 < distance 200 0
   \<and> ClosestBitnodeTS [''100'', ''200'', ''300''] 1000 = Some (Inl IndexOutOfRange)"
proof -
  have a: "ClosestBitnodeTS [''100'', ''200'', ''300''] 250 = Some (Inr 300)"
    by code_simp
  have b: "ClosestBitnodeTS [''100'', ''200'', ''300''] 0 = Some (Inr 200)"
    by code_simp
  have c: "ClosestBitnodeTS [''100'', ''200'', ''300''] 1000 = Some (Inl IndexOutOfRange)"
    by code_simp
  have d: "distance 200 250 = distance 300 250" "distance 100 0 < distance 200 0"
    by (simp_all add: distance_def)
  from a b c d show ?thesis by simp
qed

end
